theory Spec2Isabelle
  imports Main "HOL-Library.Sublist"
begin

section \<open>Prism: port acquisition and request normalisation\<close>

text \<open>
  \<^verbatim>\<open>prism.go\<close> is kept in several generations that share most of their code.
  The definitions below follow the source text; where the generations differ, each
  differing function is embedded under its own name and the lines it comes from are
  given.

  A Go \<^verbatim>\<open>string\<close> is a sequence of bytes and is modelled as \<^typ>\<open>string\<close>.
  Functions of the Go standard library that the program calls are either written
  out (\<^verbatim>\<open>strings.Join\<close>, \<^verbatim>\<open>strings.Contains\<close>, \<^verbatim>\<open>strings.TrimSpace\<close>,
  \<^verbatim>\<open>strconv.Atoi\<close>) or, where they depend on the world outside the process
  (\<^verbatim>\<open>net.Listen\<close>, the clock) or are large (\<^verbatim>\<open>encoding/json\<close>), taken as
  parameters.
\<close>

subsection \<open>Strings\<close>

definition lower_char :: "char \<Rightarrow> char" where
  "lower_char c =
     (case map_of (zip ''ABCDEFGHIJKLMNOPQRSTUVWXYZ'' ''abcdefghijklmnopqrstuvwxyz'') c of
        Some l \<Rightarrow> l
      | None \<Rightarrow> c)"

text \<open>\<^verbatim>\<open>strings.ToLower\<close> on the ASCII letters; other bytes are kept.\<close>

definition strings_ToLower :: "string \<Rightarrow> string" where
  "strings_ToLower s = map lower_char s"

text \<open>\<^verbatim>\<open>strings.Contains(s, substr)\<close>: \<open>substr\<close> occurs in \<open>s\<close> as a contiguous run of bytes.\<close>

fun strings_Contains :: "string \<Rightarrow> string \<Rightarrow> bool" where
  "strings_Contains [] substr = (substr = [])"
| "strings_Contains (c # cs) substr = (prefix substr (c # cs) \<or> strings_Contains cs substr)"

text \<open>\<^verbatim>\<open>strings.Join(elems, sep)\<close>.\<close>

fun strings_Join :: "string list \<Rightarrow> string \<Rightarrow> string" where
  "strings_Join [] sep = []"
| "strings_Join [e] sep = e"
| "strings_Join (e # es) sep = e @ sep @ strings_Join es sep"

text \<open>
  The UTF-8 encodings of the runes for which \<^verbatim>\<open>unicode.IsSpace\<close> holds: tab, line
  feed, vertical tab, form feed, carriage return, space, U+0085, U+00A0, U+1680,
  U+2000 to U+200A, U+2028, U+2029, U+202F, U+205F and U+3000.
\<close>

definition space_runes :: "string list" where
  "space_runes =
     [[CHR 0x09], [CHR 0x0A], [CHR 0x0B], [CHR 0x0C], [CHR 0x0D], [CHR 0x20],
      [CHR 0xC2, CHR 0x85], [CHR 0xC2, CHR 0xA0],
      [CHR 0xE1, CHR 0x9A, CHR 0x80],
      [CHR 0xE2, CHR 0x80, CHR 0x80], [CHR 0xE2, CHR 0x80, CHR 0x81],
      [CHR 0xE2, CHR 0x80, CHR 0x82], [CHR 0xE2, CHR 0x80, CHR 0x83],
      [CHR 0xE2, CHR 0x80, CHR 0x84], [CHR 0xE2, CHR 0x80, CHR 0x85],
      [CHR 0xE2, CHR 0x80, CHR 0x86], [CHR 0xE2, CHR 0x80, CHR 0x87],
      [CHR 0xE2, CHR 0x80, CHR 0x88], [CHR 0xE2, CHR 0x80, CHR 0x89],
      [CHR 0xE2, CHR 0x80, CHR 0x8A],
      [CHR 0xE2, CHR 0x80, CHR 0xA8], [CHR 0xE2, CHR 0x80, CHR 0xA9],
      [CHR 0xE2, CHR 0x80, CHR 0xAF],
      [CHR 0xE2, CHR 0x81, CHR 0x9F],
      [CHR 0xE3, CHR 0x80, CHR 0x80]]"

text \<open>
  The number of bytes of the first of the given byte sequences that the string
  starts with, and 0 when it starts with none of them.
\<close>

definition leading_width :: "string list \<Rightarrow> string \<Rightarrow> nat" where
  "leading_width runes s =
     (case filter (\<lambda>r. r \<noteq> [] \<and> prefix r s) runes of
        [] \<Rightarrow> 0
      | r # _ \<Rightarrow> length r)"

lemma leading_width_drop:
  assumes "0 < leading_width runes s"
  shows "length s - leading_width runes s < length s"
proof -
  from assms obtain r rs where f: "filter (\<lambda>r. r \<noteq> [] \<and> prefix r s) runes = r # rs"
    by (auto simp: leading_width_def split: list.splits)
  have "r \<in> set (filter (\<lambda>r. r \<noteq> [] \<and> prefix r s) runes)"
    by (simp add: f)
  then have "r \<noteq> []" and "prefix r s"
    by auto
  then have "s \<noteq> []"
    by auto
  with assms show ?thesis
    by simp
qed

function trim_leading :: "string list \<Rightarrow> string \<Rightarrow> string" where
  "trim_leading runes s =
     (if leading_width runes s = 0 then s
      else trim_leading runes (drop (leading_width runes s) s))"
  by pat_completeness auto
termination
  by (relation "measure (\<lambda>(runes, s). length s)") (auto simp: leading_width_drop)

declare trim_leading.simps [simp del]

text \<open>
  \<^verbatim>\<open>strings.TrimSpace\<close>: the white-space runes at the start are removed, then those
  at the end (read backwards, so against the reversed encodings).
\<close>

definition strings_TrimSpace :: "string \<Rightarrow> string" where
  "strings_TrimSpace s =
     rev (trim_leading (map rev space_runes) (rev (trim_leading space_runes s)))"

definition is_digit :: "char \<Rightarrow> bool" where
  "is_digit c \<longleftrightarrow> c \<in> set ''0123456789''"

definition digit_value :: "char \<Rightarrow> int" where
  "digit_value c = int (of_char c) - 48"

definition digits_value :: "string \<Rightarrow> int" where
  "digits_value ds = fold (\<lambda>c n. n * 10 + digit_value c) ds 0"

text \<open>
  \<^verbatim>\<open>strconv.Atoi\<close> with a 64-bit \<^verbatim>\<open>int\<close>: an optional sign and at least one decimal
  digit; \<open>None\<close> is the syntax error or the range error.
\<close>

definition strconv_Atoi :: "string \<Rightarrow> int option" where
  "strconv_Atoi s =
     (let neg = (s \<noteq> [] \<and> hd s = CHR ''-'');
          ds = (if s \<noteq> [] \<and> (hd s = CHR ''-'' \<or> hd s = CHR ''+'') then tl s else s)
      in if ds = [] \<or> \<not> list_all is_digit ds then None
         else (let n = (if neg then - digits_value ds else digits_value ds)
               in if n < - (2 ^ 63) \<or> 2 ^ 63 - 1 < n then None else Some n))"

subsection \<open>Port acquisition\<close>

text \<open>
  The answer of the operating system to one \<^verbatim>\<open>Listen\<close> call on a port: the
  listener, or the error with its message (\<^verbatim>\<open>err.Error()\<close>). The environment maps a
  port number to the answer a probe of that port gets.
\<close>

datatype listen_result = Listening | ListenError string

type_synonym netenv = "int \<Rightarrow> listen_result"

datatype find_error = NoAvailablePorts int | ErrorCheckingPort int string | ListenFailed string

definition maxPort :: int where
  "maxPort = 65535"

definition maxAttempts :: int where
  "maxAttempts = 100"

text \<open>The test on the lower-cased error text in lines 233 to 235.\<close>

definition port_unavailable :: "string \<Rightarrow> bool" where
  "port_unavailable errStr \<longleftrightarrow>
     strings_Contains errStr ''address already in use'' \<or>
     strings_Contains errStr ''only one usage of each socket address'' \<or>
     strings_Contains errStr ''access permissions''"

text \<open>
  What a run of \<^verbatim>\<open>findAvailablePort\<close> leaves behind: the returned pair (\<open>Inl\<close> is
  the error), the value of \<^verbatim>\<open>attempts\<close> when the function returns, and the lines
  printed for the ports that were skipped (port and lower-cased error text).
\<close>

record scan =
  returned :: "find_error + int"
  iterations :: int
  printed :: "(int \<times> string) list"

text \<open>
  \<^verbatim>\<open>findAvailablePort\<close>, lines 195 to 246: the loop with its variables \<^verbatim>\<open>port\<close> and
  \<^verbatim>\<open>attempts\<close>. \<^verbatim>\<open>port\<close> is incremented only when it is at most 65535, so the Go
  \<^verbatim>\<open>int\<close> cannot overflow here.
\<close>

function findAvailablePort_loop ::
  "netenv \<Rightarrow> int \<Rightarrow> int \<Rightarrow> (int \<times> string) list \<Rightarrow> scan" where
  "findAvailablePort_loop env port attempts out =
     (if port \<le> maxPort \<and> attempts < maxAttempts then
        (case env port of
           Listening \<Rightarrow> \<lparr>returned = Inr port, iterations = attempts + 1, printed = out\<rparr>
         | ListenError err \<Rightarrow>
             (let errStr = strings_ToLower err in
              if port_unavailable errStr
              then findAvailablePort_loop env (port + 1) (attempts + 1) (out @ [(port, errStr)])
              else \<lparr>returned = Inl (ErrorCheckingPort port err), iterations = attempts + 1,
                     printed = out\<rparr>))
      else \<lparr>returned = Inl (NoAvailablePorts maxAttempts), iterations = attempts,
             printed = out\<rparr>)"
  by pat_completeness auto
termination
  by (relation "measure (\<lambda>(env, port, attempts, out). nat (maxAttempts - attempts))") auto

declare findAvailablePort_loop.simps [simp del]

definition findAvailablePort :: "netenv \<Rightarrow> int \<Rightarrow> scan" where
  "findAvailablePort env startPort = findAvailablePort_loop env startPort 0 []"

text \<open>The test on the lower-cased error text in lines 541 and 542 (and 791 and 792).\<close>

definition address_in_use :: "string \<Rightarrow> bool" where
  "address_in_use errStr \<longleftrightarrow>
     strings_Contains errStr ''address already in use'' \<or>
     strings_Contains errStr ''only one usage of each socket address''"

text \<open>\<^verbatim>\<open>port++\<close> on a 64-bit Go \<^verbatim>\<open>int\<close>, which wraps around.\<close>

definition int_succ :: "int \<Rightarrow> int" where
  "int_succ n = (if n = 2 ^ 63 - 1 then - (2 ^ 63) else n + 1)"

text \<open>
  \<^verbatim>\<open>findAvailablePort\<close> of the earlier generations, lines 527 to 551 and 777 to 801:
  a \<^verbatim>\<open>for\<close> loop with no condition. \<open>None\<close> is the run that never returns.
\<close>

partial_function (option) findAvailablePort_unbounded ::
  "netenv \<Rightarrow> int \<Rightarrow> (find_error + int) option" where
  "findAvailablePort_unbounded env port =
     (case env port of
        Listening \<Rightarrow> Some (Inr port)
      | ListenError err \<Rightarrow>
          if address_in_use (strings_ToLower err)
          then findAvailablePort_unbounded env (int_succ port)
          else Some (Inl (ListenFailed err)))"

declare findAvailablePort_unbounded.simps [code]

text \<open>
  A probe is occupied when it fails with an error that the test \<open>cls\<close> on the
  lower-cased text puts in the conflict class.
\<close>

definition occupied :: "(string \<Rightarrow> bool) \<Rightarrow> listen_result \<Rightarrow> bool" where
  "occupied cls r = (case r of Listening \<Rightarrow> False | ListenError err \<Rightarrow> cls (strings_ToLower err))"

text \<open>The \<open>n\<close> consecutive ports from \<open>p\<close> on are all occupied.\<close>

fun consecutive_occupied :: "(string \<Rightarrow> bool) \<Rightarrow> netenv \<Rightarrow> int \<Rightarrow> nat \<Rightarrow> bool" where
  "consecutive_occupied cls env p 0 = True"
| "consecutive_occupied cls env p (Suc n) =
     (occupied cls (env p) \<and> consecutive_occupied cls env (p + 1) n)"

text \<open>An environment in which exactly the ports 8080 to 8179 are held by other processes.\<close>

definition busy_8080 :: netenv where
  "busy_8080 port =
     (if 8080 \<le> port \<and> port < 8180
      then ListenError ''listen tcp4 :8080: bind: address already in use''
      else Listening)"

subsection \<open>The port setting\<close>

text \<open>
  \<^verbatim>\<open>getPortFromEnv\<close>, lines 249 to 283 (default 38438) and 554 to 588 (default
  8080); the argument is the value \<^verbatim>\<open>os.Getenv("PRISM_PORT")\<close> returns, which is empty
  when the variable is not set. The \<^verbatim>\<open>range\<close> loop cuts the string at its first rune
  that is not a decimal digit, which is its first such byte.
\<close>

definition getPortFromEnv_default :: "int \<Rightarrow> string \<Rightarrow> int" where
  "getPortFromEnv_default dflt env_value =
     (if env_value = [] then dflt
      else (let portStr = takeWhile is_digit (strings_TrimSpace env_value) in
            if portStr = [] then dflt
            else (case strconv_Atoi portStr of
                    None \<Rightarrow> dflt
                  | Some port \<Rightarrow> if port \<le> 0 \<or> port > 65535 then dflt else port)))"

definition getPortFromEnv :: "string \<Rightarrow> int" where
  "getPortFromEnv = getPortFromEnv_default 38438"

definition getPortFromEnv_8080 :: "string \<Rightarrow> int" where
  "getPortFromEnv_8080 = getPortFromEnv_default 8080"

text \<open>\<^verbatim>\<open>getPortFromEnv\<close> of lines 804 to 823, which hands the whole value to \<^verbatim>\<open>Atoi\<close>.\<close>

definition getPortFromEnv_strict :: "string \<Rightarrow> int" where
  "getPortFromEnv_strict portStr =
     (if portStr = [] then 8080
      else (case strconv_Atoi portStr of
              None \<Rightarrow> 8080
            | Some port \<Rightarrow> if port \<le> 0 \<or> port > 65535 then 8080 else port))"

text \<open>
  The reading of the specification's "numeric setting in [1, 65535]": a non-empty
  string of decimal digits whose value lies in that range.
\<close>

definition decimal_port :: "string \<Rightarrow> bool" where
  "decimal_port s \<longleftrightarrow>
     s \<noteq> [] \<and> list_all is_digit s \<and> 1 \<le> digits_value s \<and> digits_value s \<le> 65535"

subsection \<open>Requests\<close>

text \<open>
  A Go map that the program ranges over is given as the list of its entries in the
  order in which that run of the \<^verbatim>\<open>range\<close> loop visits them (Go does not fix the
  order); the keys of a map are distinct. A map that is only passed on is a map of
  HOL.
\<close>

type_synonym 'v gomap = "(string \<times> 'v) list"

definition gomap :: "'v gomap \<Rightarrow> bool" where
  "gomap m \<longleftrightarrow> distinct (map fst m)"

text \<open>
  \<^verbatim>\<open>multipart.FileHeader\<close>: the exported fields and the bytes of the uploaded file,
  which the header keeps in unexported fields.
\<close>

record FileHeader =
  fh_Filename :: string
  fh_Header :: "string \<rightharpoonup> string list"
  fh_Size :: int
  fh_content :: string

text \<open>\<^verbatim>\<open>multipart.Form\<close>; \<open>None\<close> is the \<^verbatim>\<open>nil\<close> map, against which \<^verbatim>\<open>File\<close> is tested.\<close>

record Form =
  form_Value :: "string list gomap"
  form_File :: "FileHeader list gomap option"

text \<open>
  An \<^verbatim>\<open>io.Reader\<close>: the bytes it still delivers, and whether the read after them
  fails rather than reaching the end of the data.
\<close>

datatype reader = Reader (pending: string) (failing: bool)

text \<open>\<^verbatim>\<open>io.ReadAll\<close> returns the bytes read and whether an error stopped it.\<close>

definition io_ReadAll :: "reader \<Rightarrow> string \<times> bool" where
  "io_ReadAll r = (pending r, failing r)"

text \<open>\<^verbatim>\<open>io.NopCloser(bytes.NewBuffer(b))\<close>.\<close>

definition bytes_NewBuffer :: "string \<Rightarrow> reader" where
  "bytes_NewBuffer b = Reader b False"

text \<open>
  The parts of \<^verbatim>\<open>http.Request\<close> that the handlers read. \<open>reqURL\<close> is the text that
  \<^verbatim>\<open>c.Request.URL.String()\<close> returns, for a request line in origin form the path
  followed by the query string; \<open>reqTLS\<close> says that \<^verbatim>\<open>c.Request.TLS\<close> is not
  \<^verbatim>\<open>nil\<close>; \<open>None\<close> in \<open>reqBody\<close> and \<open>reqMultipartForm\<close> is \<^verbatim>\<open>nil\<close>.
\<close>

record Request =
  reqMethod :: string
  reqURL :: string
  reqHost :: string
  reqRemoteAddr :: string
  reqTLS :: bool
  reqHeader :: "string list gomap"
  reqBody :: "reader option"
  reqMultipartForm :: "Form option"

text \<open>
  The values \<^verbatim>\<open>json.Unmarshal\<close> stores in an \<^verbatim>\<open>interface{}\<close>; \<open>JNull\<close> is the
  \<^verbatim>\<open>nil\<close> interface value and \<open>'n\<close> the type of numbers (\<^verbatim>\<open>float64\<close>).
\<close>

datatype 'n json =
  JNull
| JBool bool
| JNumber 'n
| JString string
| JArray "'n json list"
| JObject "(string \<times> 'n json) list"

text \<open>The record built for one uploaded file, with the keys \<^verbatim>\<open>filename\<close>, \<^verbatim>\<open>size\<close>, \<^verbatim>\<open>header\<close>.\<close>

record file_info =
  fi_filename :: string
  fi_size :: int
  fi_header :: "string \<rightharpoonup> string list"

datatype form_entry = FormValue string | FormValues "string list" | FormFiles "file_info list"

text \<open>
  The values the handlers assign to \<^verbatim>\<open>body\<close>: the text of the raw bytes, the decoded
  JSON value (\<open>BodyJSON JNull\<close> is \<^verbatim>\<open>nil\<close>), or the map \<^verbatim>\<open>formData\<close>.
\<close>

datatype 'n body = BodyText string | BodyJSON "'n json" | BodyForm "string \<rightharpoonup> form_entry"

text \<open>
  \<^verbatim>\<open>RequestInfo\<close> as lines 15 to 20 and 763 to 768 declare it, and with the field
  \<^verbatim>\<open>ReceivedTime\<close> of lines 145 to 151 and 512 to 518. \<open>None\<close> in \<open>Headers\<close> is the
  \<^verbatim>\<open>nil\<close> map, which is encoded as \<^verbatim>\<open>null\<close>.
\<close>

record 'n RequestInfo_plain =
  FullURL :: string
  Method :: string
  Headers :: "(string \<rightharpoonup> string) option"
  Body :: "'n body"

record 'n RequestInfo = "'n RequestInfo_plain" +
  ReceivedTime :: string

text \<open>
  What a handler leaves behind: the status and the value handed to \<^verbatim>\<open>c.JSON\<close>, the
  text \<^verbatim>\<open>bodyStr\<close> printed after \<^verbatim>\<open>Body:\<close>, and the request as later readers find it.
\<close>

record 'p response =
  status :: nat
  payload :: 'p
  bodyStr :: string
  request :: Request

subsection \<open>Request normalisation\<close>

text \<open>\<^verbatim>\<open>c.GetHeader(key)\<close> for a key in canonical form: the first value, or the empty string.\<close>

definition GetHeader :: "Request \<Rightarrow> string \<Rightarrow> string" where
  "GetHeader req key =
     (case map_of (reqHeader req) key of
        None \<Rightarrow> []
      | Some [] \<Rightarrow> []
      | Some (v # vs) \<Rightarrow> v)"

text \<open>The loop that fills \<^verbatim>\<open>headers\<close>, lines 310 to 313.\<close>

definition collectHeaders :: "Request \<Rightarrow> (string \<rightharpoonup> string)" where
  "collectHeaders req =
     fold (\<lambda>(key, values) headers. headers(key \<mapsto> strings_Join values '', ''))
       (reqHeader req) Map.empty"

definition fileInfo :: "FileHeader \<Rightarrow> file_info" where
  "fileInfo file =
     \<lparr>fi_filename = fh_Filename file, fi_size = fh_Size file, fi_header = fh_Header file\<rparr>"

text \<open>The two loops that fill \<^verbatim>\<open>formData\<close>, lines 324 to 343.\<close>

definition buildFormData ::
  "string list gomap \<Rightarrow> FileHeader list gomap \<Rightarrow> (string \<rightharpoonup> form_entry)" where
  "buildFormData valueMap fileMap =
     fold (\<lambda>(key, files) formData. formData(key \<mapsto> FormFiles (map fileInfo files))) fileMap
       (fold (\<lambda>(key, values) formData.
                formData(key \<mapsto> (if length values = 1 then FormValue (values ! 0)
                                    else FormValues values)))
          valueMap Map.empty)"

text \<open>
  The test of line 319: the form and its \<^verbatim>\<open>File\<close> map when neither is \<^verbatim>\<open>nil\<close>.
\<close>

definition multipartFiles :: "Request \<Rightarrow> (Form \<times> FileHeader list gomap) option" where
  "multipartFiles req =
     (case reqMultipartForm req of
        None \<Rightarrow> None
      | Some form \<Rightarrow> (case form_File form of None \<Rightarrow> None | Some files \<Rightarrow> Some (form, files)))"

text \<open>
  The reading of the body, lines 348 to 353: the bytes \<^verbatim>\<open>io.ReadAll\<close> returns (its
  error is dropped) and the request with a fresh reader over them; a \<^verbatim>\<open>nil\<close> body
  is left alone and gives no bytes.
\<close>

definition readBody :: "Request \<Rightarrow> string \<times> Request" where
  "readBody req =
     (case reqBody req of
        None \<Rightarrow> ([], req)
      | Some r \<Rightarrow>
          (let bodyBytes = fst (io_ReadAll r)
           in (bodyBytes, req\<lparr>reqBody := Some (bytes_NewBuffer bodyBytes)\<rparr>)))"

text \<open>
  The classification of the body, which every handler contains in the same words
  (lines 315 to 373, 34 to 92, 613 to 671 and 863 to 921): the values of \<^verbatim>\<open>body\<close>
  and \<^verbatim>\<open>bodyStr\<close> and the request as it is left. \<open>unmarshal\<close> is \<^verbatim>\<open>json.Unmarshal\<close>
  into an \<^verbatim>\<open>interface{}\<close>, with \<open>None\<close> for an error, and \<open>marshalIndent\<close> is
  \<^verbatim>\<open>json.MarshalIndent\<close> with the indentation of two spaces.
\<close>

definition classifyBody ::
  "(string \<Rightarrow> 'n json option) \<Rightarrow> ('n json \<Rightarrow> string) \<Rightarrow> Request \<Rightarrow> 'n body \<times> string \<times> Request" where
  "classifyBody unmarshal marshalIndent req =
     (case multipartFiles req of
        Some (form, files) \<Rightarrow>
          (BodyForm (buildFormData (form_Value form) files), ''[Multipart Form Data with Files]'',
           req)
      | None \<Rightarrow>
          (let (bodyBytes, req') = readBody req;
               contentType = GetHeader req' ''Content-Type''
           in if strings_Contains contentType ''application/json'' \<and> length bodyBytes > 0 then
                (case unmarshal bodyBytes of
                   Some jsonBody \<Rightarrow> (BodyJSON jsonBody, marshalIndent jsonBody, req')
                 | None \<Rightarrow> (BodyText bodyBytes, bodyBytes, req'))
              else (BodyText bodyBytes, bodyBytes, req')))"

text \<open>\<^verbatim>\<open>getFullURL\<close>, lines 286 to 298 and 591 to 603.\<close>

definition getFullURL :: "Request \<Rightarrow> string" where
  "getFullURL req =
     (let scheme = (if reqTLS req then ''https'' else ''http'');
          host = (if reqHost req = [] then reqRemoteAddr req else reqHost req)
      in scheme @ ''://'' @ host @ reqURL req)"

text \<open>
  \<^verbatim>\<open>echoHandler\<close>, lines 301 to 401 and 606 to 699; \<open>now\<close> is the text of
  \<^verbatim>\<open>time.Now().Format("2006-01-02 15:04:05")\<close>.
\<close>

definition echoHandler ::
  "(string \<Rightarrow> 'n json option) \<Rightarrow> ('n json \<Rightarrow> string) \<Rightarrow> string \<Rightarrow> Request \<Rightarrow>
   'n RequestInfo response" where
  "echoHandler unmarshal marshalIndent now req =
     (let headers = collectHeaders req;
          (body, bodyText, req') = classifyBody unmarshal marshalIndent req;
          fullURL = getFullURL req';
          reqInfo = \<lparr>FullURL = fullURL, Method = reqMethod req', Headers = Some headers,
                     Body = body, ReceivedTime = now\<rparr>
      in \<lparr>status = 200, payload = reqInfo, bodyStr = bodyText, request = req'\<rparr>)"

text \<open>
  The handler written inside \<^verbatim>\<open>main\<close> in the generations without \<^verbatim>\<open>getFullURL\<close>,
  lines 27 to 115 and 856 to 944.
\<close>

definition echoInline ::
  "(string \<Rightarrow> 'n json option) \<Rightarrow> ('n json \<Rightarrow> string) \<Rightarrow> Request \<Rightarrow>
   'n RequestInfo_plain response" where
  "echoInline unmarshal marshalIndent req =
     (let headers = collectHeaders req;
          (body, bodyText, req') = classifyBody unmarshal marshalIndent req;
          reqInfo = \<lparr>FullURL = reqURL req', Method = reqMethod req', Headers = Some headers,
                     Body = body\<rparr>
      in \<lparr>status = 200, payload = reqInfo, bodyStr = bodyText, request = req'\<rparr>)"

subsection \<open>Notions used in the statements\<close>

text \<open>Two lists of entries of the same Go map, in whatever order each was visited.\<close>

definition same_gomap :: "'v gomap \<Rightarrow> 'v gomap \<Rightarrow> bool" where
  "same_gomap a b \<longleftrightarrow> gomap a \<and> gomap b \<and> set a = set b"

definition same_form :: "Form option \<Rightarrow> Form option \<Rightarrow> bool" where
  "same_form f g =
     (case (f, g) of
        (None, None) \<Rightarrow> True
      | (Some a, Some b) \<Rightarrow>
          same_gomap (form_Value a) (form_Value b) \<and>
          (case (form_File a, form_File b) of
             (None, None) \<Rightarrow> True
           | (Some x, Some y) \<Rightarrow> same_gomap x y
           | _ \<Rightarrow> False)
      | _ \<Rightarrow> False)"

text \<open>
  Two requests with the same inputs: method, URL, host, TLS flag, header map, raw
  bytes of the body and multipart form agree; the order in which the maps are
  visited may differ, and so may the peer address.
\<close>

definition same_inputs :: "Request \<Rightarrow> Request \<Rightarrow> bool" where
  "same_inputs a b \<longleftrightarrow>
     reqMethod a = reqMethod b \<and> reqURL a = reqURL b \<and> reqHost a = reqHost b \<and>
     reqTLS a = reqTLS b \<and> same_gomap (reqHeader a) (reqHeader b) \<and>
     fst (readBody a) = fst (readBody b) \<and>
     same_form (reqMultipartForm a) (reqMultipartForm b)"

text \<open>The request with the bytes of every uploaded file replaced by \<open>g\<close> of them.\<close>

definition replaceContents :: "(string \<Rightarrow> string) \<Rightarrow> Request \<Rightarrow> Request" where
  "replaceContents g req =
     req\<lparr>reqMultipartForm :=
       map_option
         (\<lambda>form. form\<lparr>form_File :=
            map_option
              (map (\<lambda>(key, files). (key, map (\<lambda>file. file\<lparr>fh_content := g (fh_content file)\<rparr>) files)))
              (form_File form)\<rparr>)
         (reqMultipartForm req)\<rparr>"

text \<open>The entry of a form body under a key; a body that is no form has none.\<close>

definition bodyField :: "'n body \<Rightarrow> string \<Rightarrow> form_entry option" where
  "bodyField b key = (case b of BodyForm formData \<Rightarrow> formData key | _ \<Rightarrow> None)"




subsection \<open>Example inputs\<close>

text \<open>
  What \<^verbatim>\<open>json.Unmarshal\<close> and \<^verbatim>\<open>json.MarshalIndent\<close> do on the documents of the
  examples: \<^verbatim>\<open>null\<close> is decoded to the \<^verbatim>\<open>nil\<close> interface value and \<^verbatim>\<open>[true, null]\<close>
  to a slice; \<^verbatim>\<open>{not json\<close> is a syntax error, and the number \<^verbatim>\<open>1e400\<close> is an error
  too, since \<^verbatim>\<open>strconv.ParseFloat\<close> finds it out of the range of \<^verbatim>\<open>float64\<close>. The
  stand-ins answer with an error and with an empty text on everything else.
\<close>

definition sample_Unmarshal :: "string \<Rightarrow> int json option" where
  "sample_Unmarshal b =
     (if b = ''null'' then Some JNull
      else if b = ''[true, null]'' then Some (JArray [JBool True, JNull])
      else if b = ''1e400'' then None
      else None)"

definition sample_MarshalIndent :: "int json \<Rightarrow> string" where
  "sample_MarshalIndent v =
     (if v = JNull then ''null''
      else if v = JArray [JBool True, JNull] then [CHR ''['', CHR 0x0A] @ ''  true,'' @
        [CHR 0x0A] @ ''  null'' @ [CHR 0x0A, CHR '']'']
      else [])"

definition sample_request :: Request where
  "sample_request =
     \<lparr>reqMethod = ''POST'', reqURL = ''/echo?x=1'', reqHost = ''example.com'',
      reqRemoteAddr = ''10.0.0.7:51234'', reqTLS = False,
      reqHeader = [(''Content-Type'', [''application/json'']), (''X-Tag'', [''a'', ''a''])],
      reqBody = Some (Reader ''[true, null]'' False), reqMultipartForm = None\<rparr>"

text \<open>An upload of 42 bytes named \<^verbatim>\<open>report.txt\<close>.\<close>

definition report_txt :: FileHeader where
  "report_txt =
     \<lparr>fh_Filename = ''report.txt'',
      fh_Header = [''Content-Type'' \<mapsto> [''text/plain'']],
      fh_Size = 42,
      fh_content = replicate 42 (CHR ''x'')\<rparr>"

text \<open>
  The body of a \<^verbatim>\<open>multipart/form-data\<close> request with the boundary \<^verbatim>\<open>x\<close> that carries
  that file under the field \<^verbatim>\<open>file\<close>.
\<close>

definition multipart_text :: string where
  "multipart_text =
     ''--x'' @ [CHR 0x0D, CHR 0x0A] @
     ''Content-Disposition: form-data; name='' @ [CHR 0x22] @ ''file'' @ [CHR 0x22] @
     ''; filename='' @ [CHR 0x22] @ fh_Filename report_txt @ [CHR 0x22] @ [CHR 0x0D, CHR 0x0A] @
     ''Content-Type: text/plain'' @ [CHR 0x0D, CHR 0x0A] @
     [CHR 0x0D, CHR 0x0A] @
     fh_content report_txt @ [CHR 0x0D, CHR 0x0A] @
     ''--x--'' @ [CHR 0x0D, CHR 0x0A]"

text \<open>
  The upload as the handler receives it. \<^verbatim>\<open>net/http\<close> leaves \<^verbatim>\<open>MultipartForm\<close> \<^verbatim>\<open>nil\<close>
  until \<^verbatim>\<open>ParseMultipartForm\<close> is called, and neither the handlers nor the middleware
  of \<^verbatim>\<open>prism.go\<close> call it or any of \<^verbatim>\<open>FormFile\<close>, \<^verbatim>\<open>PostForm\<close> and \<^verbatim>\<open>MultipartForm\<close>,
  which would; the body is still unread.
\<close>

definition upload_request :: Request where
  "upload_request =
     \<lparr>reqMethod = ''POST'', reqURL = ''/webhook'', reqHost = ''example.com'',
      reqRemoteAddr = ''10.0.0.7:51234'', reqTLS = False,
      reqHeader = [(''Content-Type'', [''multipart/form-data; boundary=x'']),
                   (''Content-Length'', [''152''])],
      reqBody = Some (Reader multipart_text False), reqMultipartForm = None\<rparr>"

text \<open>The same request with a body that is not JSON, and with the JSON document \<^verbatim>\<open>null\<close>.\<close>

definition malformed_request :: Request where
  "malformed_request = sample_request\<lparr>reqBody := Some (Reader ''{not json'' False)\<rparr>"

definition null_request :: Request where
  "null_request = sample_request\<lparr>reqBody := Some (Reader ''null'' False)\<rparr>"


text \<open>A \<^verbatim>\<open>GET\<close> request without headers and without a body.\<close>

definition empty_request :: Request where
  "empty_request =
     \<lparr>reqMethod = ''GET'', reqURL = ''/webhook'', reqHost = [],
      reqRemoteAddr = ''10.0.0.7:51234'', reqTLS = True,
      reqHeader = [], reqBody = Some (Reader [] False), reqMultipartForm = None\<rparr>"

text \<open>The first example as a run that visits the headers in the other order.\<close>

definition reordered_request :: Request where
  "reordered_request =
     sample_request
       \<lparr>reqHeader := [(''X-Tag'', [''a'', ''a'']), (''Content-Type'', [''application/json''])]\<rparr>"

text \<open>The request without a host as it arrives on a second connection of the same client.\<close>

definition second_connection_request :: Request where
  "second_connection_request = empty_request\<lparr>reqRemoteAddr := ''10.0.0.7:51236''\<rparr>"

section \<open>Properties of the port acquisition\<close>

lemma occupied_step:
  assumes "consecutive_occupied cls env p n" and "0 < n"
  obtains err where "env p = ListenError err" and "cls (strings_ToLower err)"
    and "consecutive_occupied cls env (p + 1) (n - 1)"
  using assms by (cases n) (auto simp: occupied_def split: listen_result.splits)

lemma occupied_interval:
  "(\<And>k. p \<le> k \<Longrightarrow> k < p + int n \<Longrightarrow> occupied cls (env k)) \<Longrightarrow>
   consecutive_occupied cls env p n"
  by (induction n arbitrary: p) auto

lemma loop_exhausted:
  "consecutive_occupied port_unavailable env port (nat (maxAttempts - attempts)) \<Longrightarrow>
   returned (findAvailablePort_loop env port attempts out) = Inl (NoAvailablePorts maxAttempts)"
proof (induction env port attempts out rule: findAvailablePort_loop.induct)
  case (1 env port attempts out)
  show ?case
  proof (cases "port \<le> maxPort \<and> attempts < maxAttempts")
    case False
    then show ?thesis
      by (subst findAvailablePort_loop.simps) auto
  next
    case True
    then have "0 < nat (maxAttempts - attempts)"
      by simp
    with "1.prems" obtain err where e: "env port = ListenError err"
      and u: "port_unavailable (strings_ToLower err)"
      and r: "consecutive_occupied port_unavailable env (port + 1) (nat (maxAttempts - attempts) - 1)"
      by (rule occupied_step)
    have "nat (maxAttempts - attempts) - 1 = nat (maxAttempts - (attempts + 1))"
      by simp
    with r have "returned (findAvailablePort_loop env (port + 1) (attempts + 1)
        (out @ [(port, strings_ToLower err)])) = Inl (NoAvailablePorts maxAttempts)"
      using "1.IH" [OF True e refl u] by simp
    then show ?thesis
      using True e u by (subst findAvailablePort_loop.simps) simp
  qed
qed

text \<open>
  The counter \<^verbatim>\<open>attempts\<close> never passes \<^verbatim>\<open>maxAttempts\<close>, and it grows by at most the
  number of ports from \<^verbatim>\<open>port\<close> to 65535.
\<close>

lemma loop_iterations:
  "attempts \<le> maxAttempts \<Longrightarrow>
   iterations (findAvailablePort_loop env port attempts out) \<le> maxAttempts \<and>
   iterations (findAvailablePort_loop env port attempts out) \<le> attempts + max 0 (maxPort + 1 - port)"
proof (induction env port attempts out rule: findAvailablePort_loop.induct)
  case (1 env port attempts out)
  show ?case
  proof (cases "port \<le> maxPort \<and> attempts < maxAttempts")
    case False
    with "1.prems" show ?thesis
      by (subst (1 2) findAvailablePort_loop.simps) auto
  next
    case True
    show ?thesis
    proof (cases "env port")
      case Listening
      with True show ?thesis
        by (subst (1 2) findAvailablePort_loop.simps) simp
    next
      case (ListenError err)
      show ?thesis
      proof (cases "port_unavailable (strings_ToLower err)")
        case False
        with True ListenError show ?thesis
          by (subst (1 2) findAvailablePort_loop.simps) simp
      next
        case u: True
        from "1.IH" [OF True ListenError refl u] True
        have "iterations (findAvailablePort_loop env (port + 1) (attempts + 1)
                (out @ [(port, strings_ToLower err)])) \<le> maxAttempts \<and>
              iterations (findAvailablePort_loop env (port + 1) (attempts + 1)
                (out @ [(port, strings_ToLower err)]))
                \<le> attempts + 1 + max 0 (maxPort + 1 - (port + 1))"
          by simp
        with True ListenError u show ?thesis
          by (subst (1 2) findAvailablePort_loop.simps) auto
      qed
    qed
  qed
qed

lemma loop_printed:
  "list_all (\<lambda>(q, e). start \<le> q \<and> q \<le> maxPort) out \<Longrightarrow> start \<le> port \<Longrightarrow>
   list_all (\<lambda>(q, e). start \<le> q \<and> q \<le> maxPort)
     (printed (findAvailablePort_loop env port attempts out))"
proof (induction env port attempts out rule: findAvailablePort_loop.induct)
  case (1 env port attempts out)
  show ?case
    using 1 by (subst findAvailablePort_loop.simps) (auto split: listen_result.splits simp: Let_def)
qed

lemma loop_monotone:
  "returned (findAvailablePort_loop env port attempts out) = Inr q \<Longrightarrow> port \<le> q"
proof (induction env port attempts out rule: findAvailablePort_loop.induct)
  case (1 env port attempts out)
  from "1.prems" show ?case
    by (subst (asm) findAvailablePort_loop.simps)
      (auto split: listen_result.splits if_splits simp: Let_def dest!: "1.IH" [rotated -1])
qed

lemma unbounded_skip:
  "consecutive_occupied address_in_use env p n \<Longrightarrow> p + int n < 2 ^ 63 \<Longrightarrow>
   findAvailablePort_unbounded env p = findAvailablePort_unbounded env (p + int n)"
proof (induction n arbitrary: p)
  case 0
  then show ?case by simp
next
  case (Suc n)
  from Suc.prems(1) obtain err where e: "env p = ListenError err"
    and u: "address_in_use (strings_ToLower err)"
    and r: "consecutive_occupied address_in_use env (p + 1) n"
    by (auto simp: occupied_def split: listen_result.splits)
  from Suc.prems(2) have s: "int_succ p = p + 1"
    by (simp add: int_succ_def)
  have "findAvailablePort_unbounded env p = findAvailablePort_unbounded env (p + 1)"
    using e u s by (subst findAvailablePort_unbounded.simps) simp
  also have "\<dots> = findAvailablePort_unbounded env (p + 1 + int n)"
    using Suc.IH [OF r] Suc.prems(2) by simp
  finally show ?case
    by (simp add: ac_simps)
qed

lemma unbounded_monotone:
  "\<not> occupied address_in_use (env k) \<Longrightarrow> k < 2 ^ 63 \<Longrightarrow> p \<le> k \<Longrightarrow>
   findAvailablePort_unbounded env p = Some (Inr q) \<Longrightarrow> p \<le> q \<and> q \<le> k"
proof (induction "nat (k - p)" arbitrary: p)
  case 0
  then have "p = k" by simp
  with "0.prems" show ?case
    by (subst (asm) findAvailablePort_unbounded.simps)
      (auto simp: occupied_def split: listen_result.splits if_splits)
next
  case (Suc n)
  then have lt: "p < k" by simp
  then have s: "int_succ p = p + 1"
    using Suc.prems(2) by (simp add: int_succ_def)
  show ?case
  proof (cases "env p")
    case Listening
    with Suc.prems(4) lt show ?thesis
      by (subst (asm) findAvailablePort_unbounded.simps) simp
  next
    case (ListenError err)
    with Suc.prems(4) s have r: "findAvailablePort_unbounded env (p + 1) = Some (Inr q)"
      by (subst (asm) findAvailablePort_unbounded.simps) (simp split: if_splits)
    have "n = nat (k - (p + 1))"
      using Suc.hyps(2) by simp
    from Suc.hyps(1) [OF this Suc.prems(1) Suc.prems(2) _ r] lt show ?thesis
      by simp
  qed
qed

lemma busy_8080_message:
  "port_unavailable (strings_ToLower ''listen tcp4 :8080: bind: address already in use'')"
  "address_in_use (strings_ToLower ''listen tcp4 :8080: bind: address already in use'')"
  by code_simp+

lemma busy_8080_occupied:
  "consecutive_occupied port_unavailable busy_8080 8080 100"
  "consecutive_occupied address_in_use busy_8080 8080 100"
  by (rule occupied_interval, simp add: busy_8080_def occupied_def busy_8080_message)+

lemma busy_8080_free: "findAvailablePort_unbounded busy_8080 8180 = Some (Inr 8180)"
  by (subst findAvailablePort_unbounded.simps) (simp add: busy_8080_def)

text \<open>
  C1. Where 100 consecutive ports from \<open>p\<close> on are occupied, \<^verbatim>\<open>findAvailablePort\<close>
  with the attempt limit returns its error "no available ports found after 100
  attempts". It returns on every input: it probes at most 100 ports, at most as
  many as there are ports from \<open>p\<close> to 65535, and every port it skips lies between
  \<open>p\<close> and 65535. The \<^verbatim>\<open>findAvailablePort\<close> of the earlier generations has no limit:
  past 100 occupied ports it goes on with port \<open>p + 100\<close>.
\<close>

theorem findAvailablePort_attempt_bound:
  "(consecutive_occupied port_unavailable env p 100 \<longrightarrow>
      returned (findAvailablePort env p) = Inl (NoAvailablePorts 100)) \<and>
   iterations (findAvailablePort env p) \<le> 100 \<and>
   iterations (findAvailablePort env p) \<le> max 0 (65536 - p) \<and>
   list_all (\<lambda>(q, e). p \<le> q \<and> q \<le> 65535) (printed (findAvailablePort env p)) \<and>
   (consecutive_occupied address_in_use env p 100 \<and> p + 100 < 2 ^ 63 \<longrightarrow>
      findAvailablePort_unbounded env p = findAvailablePort_unbounded env (p + 100))"
proof -
  have "consecutive_occupied port_unavailable env p 100 \<Longrightarrow>
      returned (findAvailablePort env p) = Inl (NoAvailablePorts 100)"
    using loop_exhausted [of env p 0 "[]"] by (simp add: findAvailablePort_def maxAttempts_def)
  moreover have "iterations (findAvailablePort env p) \<le> 100 \<and>
      iterations (findAvailablePort env p) \<le> max 0 (65536 - p)"
    using loop_iterations [of 0 env p "[]"]
    by (simp add: findAvailablePort_def maxAttempts_def maxPort_def)
  moreover have "list_all (\<lambda>(q, e). p \<le> q \<and> q \<le> 65535) (printed (findAvailablePort env p))"
    using loop_printed [of p "[]" p env 0] by (simp add: findAvailablePort_def maxPort_def)
  moreover have "consecutive_occupied address_in_use env p 100 \<Longrightarrow> p + 100 < 2 ^ 63 \<Longrightarrow>
      findAvailablePort_unbounded env p = findAvailablePort_unbounded env (p + 100)"
    using unbounded_skip [of env p 100] by simp
  ultimately show ?thesis
    by blast
qed

theorem findAvailablePort_attempt_bound_witness:
  "consecutive_occupied port_unavailable busy_8080 8080 100 \<and>
   returned (findAvailablePort busy_8080 8080) = Inl (NoAvailablePorts 100) \<and>
   iterations (findAvailablePort busy_8080 8080) \<le> 100 \<and>
   consecutive_occupied address_in_use busy_8080 8080 100 \<and>
   findAvailablePort_unbounded busy_8080 8080 = findAvailablePort_unbounded busy_8080 8180"
  using findAvailablePort_attempt_bound [of busy_8080 8080] busy_8080_occupied
  by simp

text \<open>
  With the ports 8080 to 8179 occupied and 8180 free, the \<^verbatim>\<open>findAvailablePort\<close> of
  lines 527 to 551 returns 8180 and no error.
\<close>

theorem findAvailablePort_unbounded_passes_100:
  "consecutive_occupied address_in_use busy_8080 8080 100 \<and>
   findAvailablePort_unbounded busy_8080 8080 = Some (Inr 8180)"
  using unbounded_skip [of busy_8080 8080 100] busy_8080_occupied busy_8080_free
  by simp

text \<open>
  C9. A port that \<^verbatim>\<open>findAvailablePort\<close> returns is never below the starting port.
  For the generations without the attempt limit this holds when some port \<open>k\<close> from
  \<open>p\<close> on does not answer with an address-in-use error, so that the scan cannot run
  into the overflow of \<^verbatim>\<open>int\<close>; \<^verbatim>\<open>net.Listen\<close> rejects every port above 65535 as
  invalid.
\<close>

theorem findAvailablePort_monotone:
  "(returned (findAvailablePort env p) = Inr q \<longrightarrow> p \<le> q) \<and>
   (findAvailablePort_unbounded env p = Some (Inr q) \<and>
    p \<le> k \<and> k < 2 ^ 63 \<and> \<not> occupied address_in_use (env k) \<longrightarrow> p \<le> q)"
  using loop_monotone [of env p 0 "[]" q] unbounded_monotone [of env k p q]
  by (auto simp: findAvailablePort_def)

theorem findAvailablePort_monotone_witness:
  "returned (findAvailablePort busy_8080 8179) = Inr 8180 \<and>
   findAvailablePort_unbounded busy_8080 8179 = Some (Inr 8180) \<and>
   \<not> occupied address_in_use (busy_8080 8180) \<and> (8179 :: int) \<le> 8180"
proof -
  have a: "returned (findAvailablePort busy_8080 8179) = Inr 8180"
    by (simp add: findAvailablePort_def findAvailablePort_loop.simps busy_8080_def
        busy_8080_message maxPort_def maxAttempts_def)
  have b: "findAvailablePort_unbounded busy_8080 8179 = Some (Inr 8180)"
    using unbounded_skip [of busy_8080 8179 1] busy_8080_free
    by (simp add: busy_8080_def occupied_def busy_8080_message)
  have c: "\<not> occupied address_in_use (busy_8080 8180)"
    by (simp add: busy_8080_def occupied_def)
  show ?thesis
    using a b c findAvailablePort_monotone [of busy_8080 8179 8180 8180] by simp
qed

section \<open>Properties of the port setting\<close>

lemma digit_value_range: "is_digit c \<Longrightarrow> 0 \<le> digit_value c \<and> digit_value c \<le> 9"
  by (auto simp: is_digit_def digit_value_def)

lemma fold_digits_nonneg:
  "list_all is_digit ds \<Longrightarrow> 0 \<le> n \<Longrightarrow> 0 \<le> fold (\<lambda>c n. n * 10 + digit_value c) ds n"
proof (induction ds arbitrary: n)
  case Nil
  then show ?case by simp
next
  case (Cons c ds)
  then have "0 \<le> n * 10 + digit_value c"
    using digit_value_range [of c] by simp
  with Cons show ?case by simp
qed

lemma digits_value_nonneg: "list_all is_digit ds \<Longrightarrow> 0 \<le> digits_value ds"
  by (simp add: digits_value_def fold_digits_nonneg)

lemma digit_not_sign: "is_digit c \<Longrightarrow> c \<noteq> CHR ''-'' \<and> c \<noteq> CHR ''+''"
  by (auto simp: is_digit_def)

lemma Atoi_digits:
  "ds \<noteq> [] \<Longrightarrow> list_all is_digit ds \<Longrightarrow>
   strconv_Atoi ds = (if digits_value ds \<le> 2 ^ 63 - 1 then Some (digits_value ds) else None)"
proof -
  assume ne: "ds \<noteq> []" and d: "list_all is_digit ds"
  then have "is_digit (hd ds)"
    by (cases ds) auto
  then have h: "hd ds \<noteq> CHR ''-''" "hd ds \<noteq> CHR ''+''"
    using digit_not_sign by auto
  from d have "0 \<le> digits_value ds"
    by (rule digits_value_nonneg)
  with ne d h show ?thesis
    by (simp add: strconv_Atoi_def Let_def)
qed

lemma takeWhile_digits: "list_all is_digit (takeWhile is_digit s)"
  by (induction s) auto

lemma getPortFromEnv_default_eq:
  "getPortFromEnv_default dflt v =
     (if decimal_port (takeWhile is_digit (strings_TrimSpace v))
      then digits_value (takeWhile is_digit (strings_TrimSpace v)) else dflt)"
proof (cases "v = []")
  case True
  have "leading_width space_runes [] = 0" "leading_width (map rev space_runes) [] = 0"
    by (simp_all add: leading_width_def space_runes_def)
  then have "strings_TrimSpace [] = []"
    by (simp add: strings_TrimSpace_def trim_leading.simps)
  with True show ?thesis
    by (simp add: getPortFromEnv_default_def decimal_port_def)
next
  case False
  let ?d = "takeWhile is_digit (strings_TrimSpace v)"
  show ?thesis
  proof (cases "?d = []")
    case True
    with False show ?thesis
      by (simp add: getPortFromEnv_default_def decimal_port_def)
  next
    case ne: False
    have "strconv_Atoi ?d = (if digits_value ?d \<le> 2 ^ 63 - 1 then Some (digits_value ?d) else None)"
      using ne takeWhile_digits by (rule Atoi_digits)
    with False ne show ?thesis
      by (auto simp: getPortFromEnv_default_def decimal_port_def Let_def takeWhile_digits)
  qed
qed

lemma decimal_port_range: "decimal_port s \<Longrightarrow> 1 \<le> digits_value s \<and> digits_value s \<le> 65535"
  by (simp add: decimal_port_def)

lemma Atoi_cases:
  "strconv_Atoi s = Some n \<Longrightarrow> 0 < n \<Longrightarrow>
   (list_all is_digit s \<and> s \<noteq> [] \<and> n = digits_value s) \<or>
   (s \<noteq> [] \<and> hd s = CHR ''+'' \<and> tl s \<noteq> [] \<and> list_all is_digit (tl s) \<and> n = digits_value (tl s))"
  using digits_value_nonneg [of "tl s"] digits_value_nonneg [of s]
  by (auto simp: strconv_Atoi_def Let_def split: if_splits)

lemma Atoi_plus:
  "hd s = CHR ''+'' \<Longrightarrow> s \<noteq> [] \<Longrightarrow> decimal_port (tl s) \<Longrightarrow>
   strconv_Atoi s = Some (digits_value (tl s))"
  by (auto simp: strconv_Atoi_def Let_def decimal_port_def)

lemma plus_not_digits: "s \<noteq> [] \<Longrightarrow> hd s = CHR ''+'' \<Longrightarrow> \<not> list_all is_digit s"
  by (cases s) (auto simp: is_digit_def)

lemma getPortFromEnv_strict_eq:
  "getPortFromEnv_strict v =
     (if decimal_port v then digits_value v
      else if v \<noteq> [] \<and> hd v = CHR ''+'' \<and> decimal_port (tl v) then digits_value (tl v)
      else 8080)"
proof (cases "decimal_port v")
  case True
  then have "strconv_Atoi v = Some (digits_value v)"
    by (simp add: decimal_port_def Atoi_digits)
  with True show ?thesis
    by (auto simp: getPortFromEnv_strict_def decimal_port_def)
next
  case nd: False
  show ?thesis
  proof (cases "v \<noteq> [] \<and> hd v = CHR ''+'' \<and> decimal_port (tl v)")
    case True
    then have "strconv_Atoi v = Some (digits_value (tl v))"
      by (simp add: Atoi_plus)
    with True nd show ?thesis
      by (auto simp: getPortFromEnv_strict_def decimal_port_def)
  next
    case False
    have "getPortFromEnv_strict v = 8080"
    proof (cases "strconv_Atoi v")
      case None
      then show ?thesis by (simp add: getPortFromEnv_strict_def)
    next
      case (Some n)
      show ?thesis
      proof (cases "0 < n \<and> n \<le> 65535")
        case False
        with Some show ?thesis by (auto simp: getPortFromEnv_strict_def)
      next
        case True
        with Atoi_cases [OF Some] nd \<open>\<not> (v \<noteq> [] \<and> hd v = CHR ''+'' \<and> decimal_port (tl v))\<close>
        have False
          by (auto simp: decimal_port_def)
        then show ?thesis ..
      qed
    qed
    with nd False show ?thesis by auto
  qed
qed

text \<open>
  C7. \<^verbatim>\<open>getPortFromEnv\<close> returns on every value, and what it returns is a port in
  [1, 65535]. In the generations that trim the value and cut it at the first
  character that is not a digit, it is the default (38438, or 8080) unless the digits
  so found are a number in [1, 65535], which is then returned. In the generation
  that hands the whole value to \<^verbatim>\<open>strconv.Atoi\<close>, it is the default 8080 unless the
  value is such a number, with or without a plus sign before it.
\<close>

theorem getPortFromEnv_fallback:
  "getPortFromEnv v =
     (if decimal_port (takeWhile is_digit (strings_TrimSpace v))
      then digits_value (takeWhile is_digit (strings_TrimSpace v)) else 38438) \<and>
   getPortFromEnv_8080 v =
     (if decimal_port (takeWhile is_digit (strings_TrimSpace v))
      then digits_value (takeWhile is_digit (strings_TrimSpace v)) else 8080) \<and>
   getPortFromEnv_strict v =
     (if decimal_port v then digits_value v
      else if v \<noteq> [] \<and> hd v = CHR ''+'' \<and> decimal_port (tl v) then digits_value (tl v)
      else 8080) \<and>
   1 \<le> getPortFromEnv v \<and> getPortFromEnv v \<le> 65535 \<and>
   1 \<le> getPortFromEnv_8080 v \<and> getPortFromEnv_8080 v \<le> 65535 \<and>
   1 \<le> getPortFromEnv_strict v \<and> getPortFromEnv_strict v \<le> 65535"
proof -
  have a: "getPortFromEnv v =
     (if decimal_port (takeWhile is_digit (strings_TrimSpace v))
      then digits_value (takeWhile is_digit (strings_TrimSpace v)) else 38438)"
    unfolding getPortFromEnv_def by (rule getPortFromEnv_default_eq)
  have b: "getPortFromEnv_8080 v =
     (if decimal_port (takeWhile is_digit (strings_TrimSpace v))
      then digits_value (takeWhile is_digit (strings_TrimSpace v)) else 8080)"
    unfolding getPortFromEnv_8080_def by (rule getPortFromEnv_default_eq)
  note c = getPortFromEnv_strict_eq [of v]
  have "1 \<le> getPortFromEnv v \<and> getPortFromEnv v \<le> 65535"
    using decimal_port_range [of "takeWhile is_digit (strings_TrimSpace v)"]
    by (simp add: a)
  moreover have "1 \<le> getPortFromEnv_8080 v \<and> getPortFromEnv_8080 v \<le> 65535"
    using decimal_port_range [of "takeWhile is_digit (strings_TrimSpace v)"]
    by (simp add: b)
  moreover have "1 \<le> getPortFromEnv_strict v \<and> getPortFromEnv_strict v \<le> 65535"
    using decimal_port_range [of v] decimal_port_range [of "tl v"]
    by (simp add: c)
  ultimately show ?thesis
    using a b c by blast
qed

text \<open>
  The value \<^verbatim>\<open>80abc\<close> is not a number, and \<^verbatim>\<open>getPortFromEnv\<close> returns 80 for it, not
  the default.
\<close>

theorem getPortFromEnv_accepts_digit_prefix:
  "\<not> decimal_port ''80abc'' \<and> getPortFromEnv ''80abc'' = 80 \<and> getPortFromEnv_8080 ''80abc'' = 80"
proof -
  have "\<not> decimal_port ''80abc''"
    by (simp add: decimal_port_def is_digit_def)
  moreover have "getPortFromEnv ''80abc'' = 80"
    by code_simp
  moreover have "getPortFromEnv_8080 ''80abc'' = 80"
    by code_simp
  ultimately show ?thesis
    by simp
qed

section \<open>Properties of the request normalisation\<close>

text \<open>A loop that stores one entry per key of a Go map computes a pointwise image of the map.\<close>

lemma fold_store:
  "distinct (map fst m) \<Longrightarrow>
   fold (\<lambda>(key, v) acc. acc(key \<mapsto> f v)) m init =
     (\<lambda>k. case map_of m k of Some v \<Rightarrow> Some (f v) | None \<Rightarrow> init k)"
proof (induction m arbitrary: init)
  case Nil
  then show ?case by simp
next
  case (Cons e m)
  obtain key v where e: "e = (key, v)"
    by (cases e)
  from Cons.prems e have fresh: "map_of m key = None" and d: "distinct (map fst m)"
    by (auto simp: map_of_eq_None_iff)
  have "fold (\<lambda>(key, v) acc. acc(key \<mapsto> f v)) (e # m) init =
        fold (\<lambda>(key, v) acc. acc(key \<mapsto> f v)) m (init(key \<mapsto> f v))"
    by (simp add: e)
  also have "\<dots> = (\<lambda>k. case map_of m k of Some v \<Rightarrow> Some (f v)
                          | None \<Rightarrow> (init(key \<mapsto> f v)) k)"
    by (rule Cons.IH [OF d])
  also have "\<dots> = (\<lambda>k. case map_of (e # m) k of Some v \<Rightarrow> Some (f v) | None \<Rightarrow> init k)"
    using fresh by (auto simp: e fun_eq_iff split: option.splits)
  finally show ?case .
qed

lemma collectHeaders_lookup:
  "gomap (reqHeader req) \<Longrightarrow>
   collectHeaders req = (\<lambda>k. map_option (\<lambda>values. strings_Join values '', '') (map_of (reqHeader req) k))"
  by (auto simp: collectHeaders_def gomap_def fold_store fun_eq_iff split: option.splits)

lemma buildFormData_lookup:
  "gomap valueMap \<Longrightarrow> gomap fileMap \<Longrightarrow>
   buildFormData valueMap fileMap =
     (\<lambda>k. case map_of fileMap k of
            Some files \<Rightarrow> Some (FormFiles (map fileInfo files))
          | None \<Rightarrow>
              (case map_of valueMap k of
                 Some values \<Rightarrow>
                   Some (if length values = 1 then FormValue (values ! 0) else FormValues values)
               | None \<Rightarrow> None))"
  by (auto simp: buildFormData_def gomap_def fold_store fun_eq_iff split: option.splits)

lemma same_gomap_map_of: "same_gomap a b \<Longrightarrow> map_of a = map_of b"
  by (simp add: same_gomap_def gomap_def map_of_inject_set)

lemma classifyBody_files:
  "multipartFiles req = Some (form, files) \<Longrightarrow>
   classifyBody unmarshal marshalIndent req =
     (BodyForm (buildFormData (form_Value form) files), ''[Multipart Form Data with Files]'', req)"
  by (simp add: classifyBody_def)

lemma readBody_header: "GetHeader (snd (readBody req)) key = GetHeader req key"
  by (simp add: readBody_def GetHeader_def Let_def split: option.splits)

lemma classifyBody_regular:
  "multipartFiles req = None \<Longrightarrow>
   classifyBody unmarshal marshalIndent req =
     (let bodyBytes = fst (readBody req) in
      if strings_Contains (GetHeader req ''Content-Type'') ''application/json'' \<and> bodyBytes \<noteq> []
      then (case unmarshal bodyBytes of
              Some jsonBody \<Rightarrow> (BodyJSON jsonBody, marshalIndent jsonBody, snd (readBody req))
            | None \<Rightarrow> (BodyText bodyBytes, bodyBytes, snd (readBody req)))
      else (BodyText bodyBytes, bodyBytes, snd (readBody req)))"
proof -
  assume m: "multipartFiles req = None"
  obtain b r where rb: "readBody req = (b, r)"
    by (cases "readBody req")
  have "GetHeader r ''Content-Type'' = GetHeader req ''Content-Type''"
    using readBody_header [of req "''Content-Type''"] rb by simp
  then show ?thesis
    by (simp add: classifyBody_def m rb split: option.splits)
qed

lemma echoHandler_fields:
  "status (echoHandler unmarshal marshalIndent now req) = 200"
  "Body (payload (echoHandler unmarshal marshalIndent now req)) =
     fst (classifyBody unmarshal marshalIndent req)"
  "bodyStr (echoHandler unmarshal marshalIndent now req) =
     fst (snd (classifyBody unmarshal marshalIndent req))"
  "request (echoHandler unmarshal marshalIndent now req) =
     snd (snd (classifyBody unmarshal marshalIndent req))"
  "Headers (payload (echoHandler unmarshal marshalIndent now req)) = Some (collectHeaders req)"
  "FullURL (payload (echoHandler unmarshal marshalIndent now req)) =
     getFullURL (snd (snd (classifyBody unmarshal marshalIndent req)))"
  "Method (payload (echoHandler unmarshal marshalIndent now req)) =
     reqMethod (snd (snd (classifyBody unmarshal marshalIndent req)))"
  "ReceivedTime (payload (echoHandler unmarshal marshalIndent now req)) = now"
  by (simp_all add: echoHandler_def Let_def split: prod.splits)

lemma echoInline_fields:
  "status (echoInline unmarshal marshalIndent req) = 200"
  "Body (payload (echoInline unmarshal marshalIndent req)) =
     fst (classifyBody unmarshal marshalIndent req)"
  "bodyStr (echoInline unmarshal marshalIndent req) =
     fst (snd (classifyBody unmarshal marshalIndent req))"
  "request (echoInline unmarshal marshalIndent req) =
     snd (snd (classifyBody unmarshal marshalIndent req))"
  "Headers (payload (echoInline unmarshal marshalIndent req)) = Some (collectHeaders req)"
  "FullURL (payload (echoInline unmarshal marshalIndent req)) =
     reqURL (snd (snd (classifyBody unmarshal marshalIndent req)))"
  "Method (payload (echoInline unmarshal marshalIndent req)) =
     reqMethod (snd (snd (classifyBody unmarshal marshalIndent req)))"
  by (simp_all add: echoInline_def Let_def split: prod.splits)

text \<open>The handler changes nothing of the request but its body.\<close>

lemma classifyBody_request:
  "snd (snd (classifyBody unmarshal marshalIndent req)) =
     (case multipartFiles req of Some x \<Rightarrow> req | None \<Rightarrow> snd (readBody req))"
  by (simp add: classifyBody_def Let_def split: option.splits prod.splits)

lemma readBody_frame:
  "reqMethod (snd (readBody req)) = reqMethod req"
  "reqURL (snd (readBody req)) = reqURL req"
  "reqHost (snd (readBody req)) = reqHost req"
  "reqRemoteAddr (snd (readBody req)) = reqRemoteAddr req"
  "reqTLS (snd (readBody req)) = reqTLS req"
  "reqHeader (snd (readBody req)) = reqHeader req"
  "reqMultipartForm (snd (readBody req)) = reqMultipartForm req"
  by (simp_all add: readBody_def Let_def split: option.splits)

lemma classifyBody_frame:
  "reqMethod (snd (snd (classifyBody unmarshal marshalIndent req))) = reqMethod req"
  "reqURL (snd (snd (classifyBody unmarshal marshalIndent req))) = reqURL req"
  "reqHost (snd (snd (classifyBody unmarshal marshalIndent req))) = reqHost req"
  "reqRemoteAddr (snd (snd (classifyBody unmarshal marshalIndent req))) = reqRemoteAddr req"
  "reqTLS (snd (snd (classifyBody unmarshal marshalIndent req))) = reqTLS req"
  by (simp_all add: classifyBody_request readBody_frame split: option.splits)

lemma getFullURL_frame:
  "getFullURL (snd (snd (classifyBody unmarshal marshalIndent req))) = getFullURL req"
  by (simp add: getFullURL_def classifyBody_frame)


lemma sample_request_facts:
  "multipartFiles sample_request = None"
  "strings_Contains (GetHeader sample_request ''Content-Type'') ''application/json''"
  "fst (readBody sample_request) = ''[true, null]''"
  by (simp_all add: sample_request_def multipartFiles_def GetHeader_def readBody_def io_ReadAll_def
      Let_def)



text \<open>
  C4. A body that is sent with a content type containing \<^verbatim>\<open>application/json\<close>, is
  not empty and is rejected by \<^verbatim>\<open>json.Unmarshal\<close> is returned as the text of its raw
  bytes, with status 200. The request is not one with a parsed multipart form and
  its files, which is classified first and whose body the parser has already read.
\<close>

theorem malformed_json_degrades_to_text:
  assumes "multipartFiles req = None"
    and "strings_Contains (GetHeader req ''Content-Type'') ''application/json''"
    and "fst (readBody req) \<noteq> []"
    and "unmarshal (fst (readBody req)) = None"
  shows "Body (payload (echoHandler unmarshal marshalIndent now req)) = BodyText (fst (readBody req)) \<and>
         status (echoHandler unmarshal marshalIndent now req) = 200 \<and>
         Body (payload (echoInline unmarshal marshalIndent req)) = BodyText (fst (readBody req)) \<and>
         status (echoInline unmarshal marshalIndent req) = 200"
  using assms by (simp add: echoHandler_fields echoInline_fields classifyBody_regular)

lemma malformed_request_facts:
  "multipartFiles malformed_request = None"
  "strings_Contains (GetHeader malformed_request ''Content-Type'') ''application/json''"
  "fst (readBody malformed_request) = ''{not json''"
  by (simp_all add: malformed_request_def sample_request_def multipartFiles_def GetHeader_def
      readBody_def io_ReadAll_def Let_def)

theorem malformed_json_degrades_to_text_witness:
  "multipartFiles malformed_request = None \<and>
   strings_Contains (GetHeader malformed_request ''Content-Type'') ''application/json'' \<and>
   fst (readBody malformed_request) = ''{not json'' \<and>
   sample_Unmarshal ''{not json'' = None \<and>
   Body (payload (echoHandler sample_Unmarshal sample_MarshalIndent ''2026-11-02 10:00:00''
     malformed_request)) = BodyText ''{not json'' \<and>
   status (echoHandler sample_Unmarshal sample_MarshalIndent ''2026-11-02 10:00:00''
     malformed_request) = 200"
proof -
  have d: "sample_Unmarshal (fst (readBody malformed_request)) = None"
    by (simp add: malformed_request_facts sample_Unmarshal_def)
  show ?thesis
    using malformed_json_degrades_to_text [of malformed_request sample_Unmarshal
        sample_MarshalIndent "''2026-11-02 10:00:00''"] d
    by (simp add: malformed_request_facts)
qed

text \<open>
  C5. Where the request is not taken as a multipart form with files, a reader that
  reads the body after the handler gets the bytes that the handler read, and no
  error; a \<^verbatim>\<open>nil\<close> body stays \<^verbatim>\<open>nil\<close>.
\<close>

theorem body_replayed:
  assumes "multipartFiles req = None"
  shows "map_option io_ReadAll (reqBody (request (echoHandler unmarshal marshalIndent now req))) =
           map_option (\<lambda>r. (fst (io_ReadAll r), False)) (reqBody req) \<and>
         map_option io_ReadAll (reqBody (request (echoInline unmarshal marshalIndent req))) =
           map_option (\<lambda>r. (fst (io_ReadAll r), False)) (reqBody req)"
  using assms
  by (simp add: echoHandler_fields echoInline_fields classifyBody_request readBody_def
      io_ReadAll_def bytes_NewBuffer_def Let_def split: option.splits)

theorem body_replayed_witness:
  "multipartFiles sample_request = None \<and>
   reqBody sample_request = Some (Reader ''[true, null]'' False) \<and>
   map_option io_ReadAll (reqBody (request (echoHandler sample_Unmarshal sample_MarshalIndent
     ''2026-11-02 10:00:00'' sample_request))) = Some (''[true, null]'', False)"
proof -
  have b: "reqBody sample_request = Some (Reader ''[true, null]'' False)"
    by (simp add: sample_request_def)
  show ?thesis
    using body_replayed [of sample_request sample_Unmarshal sample_MarshalIndent
        "''2026-11-02 10:00:00''"] b
    by (simp add: sample_request_facts io_ReadAll_def)
qed

text \<open>
  C6. \<^verbatim>\<open>echoHandler\<close> sets \<^verbatim>\<open>full_url\<close> to the scheme, \<^verbatim>\<open>https\<close> exactly for a TLS
  connection, followed by \<^verbatim>\<open>://\<close>, the host, or the peer address where the host is
  empty, and the text of the URL. The handlers written inside \<^verbatim>\<open>main\<close> set it to
  the text of the URL alone.
\<close>

theorem full_url_construction:
  "FullURL (payload (echoHandler unmarshal marshalIndent now req)) =
     (if reqTLS req then ''https'' else ''http'') @ ''://'' @
     (if reqHost req = [] then reqRemoteAddr req else reqHost req) @ reqURL req \<and>
   FullURL (payload (echoInline unmarshal marshalIndent req)) = reqURL req"
  by (simp add: echoHandler_fields echoInline_fields getFullURL_frame classifyBody_frame
      getFullURL_def)

text \<open>
  For a request to \<^verbatim>\<open>/echo?x=1\<close> on the host \<^verbatim>\<open>example.com\<close>, the handler of lines 27
  to 115 returns \<^verbatim>\<open>/echo?x=1\<close> as \<^verbatim>\<open>full_url\<close>, without scheme and host.
\<close>

theorem echoInline_full_url_is_path_only:
  "reqHost sample_request = ''example.com'' \<and>
   FullURL (payload (echoInline sample_Unmarshal sample_MarshalIndent sample_request)) =
     ''/echo?x=1'' \<and>
   getFullURL sample_request = ''http://example.com/echo?x=1''"
  by (simp add: echoInline_fields classifyBody_frame getFullURL_def sample_request_def)

text \<open>
  \<^verbatim>\<open>prism.go\<close> never calls \<^verbatim>\<open>ParseMultipartForm\<close>, and the \<^verbatim>\<open>MultipartForm\<close> of a
  request is \<^verbatim>\<open>nil\<close> until that is called. A request whose form is \<^verbatim>\<open>nil\<close> and
  whose content type does not contain \<^verbatim>\<open>application/json\<close> is returned as the text
  of its raw bytes, whatever they hold.
\<close>

lemma unparsed_form_echoed_as_text:
  assumes "reqMultipartForm req = None"
    and "\<not> strings_Contains (GetHeader req ''Content-Type'') ''application/json''"
  shows "Body (payload (echoHandler unmarshal marshalIndent now req)) = BodyText (fst (readBody req))"
    and "Body (payload (echoInline unmarshal marshalIndent req)) = BodyText (fst (readBody req))"
proof -
  from assms(1) have "multipartFiles req = None"
    by (simp add: multipartFiles_def)
  with assms(2) show
    "Body (payload (echoHandler unmarshal marshalIndent now req)) = BodyText (fst (readBody req))"
    "Body (payload (echoInline unmarshal marshalIndent req)) = BodyText (fst (readBody req))"
    by (simp_all add: echoHandler_fields echoInline_fields classifyBody_regular)
qed

lemma buildFormData_contents:
  "buildFormData valueMap
     (map (\<lambda>(key, files). (key, map (\<lambda>file. file\<lparr>fh_content := g (fh_content file)\<rparr>) files))
        fileMap) =
   buildFormData valueMap fileMap"
proof -
  have c: "(\<lambda>(key, files) formData. formData(key \<mapsto> FormFiles (map fileInfo files))) \<circ>
        (\<lambda>(key, files). (key, map (\<lambda>file. file\<lparr>fh_content := g (fh_content file)\<rparr>) files)) =
        (\<lambda>(key, files) formData. formData(key \<mapsto> FormFiles (map fileInfo files)))"
    by (auto simp: fun_eq_iff fileInfo_def)
  show ?thesis
    unfolding buildFormData_def fold_map c ..
qed

lemma replaceContents_files:
  "multipartFiles req = Some (form, files) \<Longrightarrow>
   \<exists>form'. multipartFiles (replaceContents g req) =
       Some (form', map (\<lambda>(key, files).
         (key, map (\<lambda>file. file\<lparr>fh_content := g (fh_content file)\<rparr>) files)) files) \<and>
     form_Value form' = form_Value form"
  by (auto simp: multipartFiles_def replaceContents_def split: option.splits)

lemma replaceContents_frame:
  "collectHeaders (replaceContents g req) = collectHeaders req"
  "getFullURL (replaceContents g req) = getFullURL req"
  "reqMethod (replaceContents g req) = reqMethod req"
  by (simp_all add: replaceContents_def collectHeaders_def getFullURL_def)

lemma multipartFiles_Some:
  "reqMultipartForm req = Some form \<Longrightarrow> form_File form = Some files \<Longrightarrow>
   multipartFiles req = Some (form, files)"
  by (simp add: multipartFiles_def)

text \<open>
  The branch of line 319, for a request whose form has been parsed: the body is a
  mapping in which every name of an upload maps to the records of its files, each
  made of the file name, the size and the part's headers, and every other name of
  a field maps to the single value of the field, or to the sequence of its
  values when there is not exactly one. The console shows the fixed text, and the
  returned value does not depend on the bytes of the files.
\<close>

lemma parsed_form_metadata_only:
  assumes "reqMultipartForm req = Some form"
    and "form_File form = Some files"
    and "gomap (form_Value form)"
    and "gomap files"
  shows "Body (payload (echoHandler unmarshal marshalIndent now req)) =
           BodyForm (\<lambda>k. case map_of files k of
                           Some uploads \<Rightarrow> Some (FormFiles (map fileInfo uploads))
                         | None \<Rightarrow>
                             (case map_of (form_Value form) k of
                                Some values \<Rightarrow>
                                  Some (if length values = 1 then FormValue (values ! 0)
                                        else FormValues values)
                              | None \<Rightarrow> None)) \<and>
         bodyStr (echoHandler unmarshal marshalIndent now req) =
           ''[Multipart Form Data with Files]'' \<and>
         payload (echoHandler unmarshal marshalIndent now (replaceContents g req)) =
           payload (echoHandler unmarshal marshalIndent now req)"
proof -
  from assms(1,2) have m: "multipartFiles req = Some (form, files)"
    by (rule multipartFiles_Some)
  from replaceContents_files [OF m, of g] obtain form' where
    m': "multipartFiles (replaceContents g req) =
       Some (form', map (\<lambda>(key, files).
         (key, map (\<lambda>file. file\<lparr>fh_content := g (fh_content file)\<rparr>) files)) files)"
    and v: "form_Value form' = form_Value form"
    by blast
  have "Body (payload (echoHandler unmarshal marshalIndent now req)) =
      BodyForm (buildFormData (form_Value form) files)"
    by (simp add: echoHandler_fields classifyBody_files [OF m])
  moreover have "bodyStr (echoHandler unmarshal marshalIndent now req) =
      ''[Multipart Form Data with Files]''"
    by (simp add: echoHandler_fields classifyBody_files [OF m])
  moreover have "payload (echoHandler unmarshal marshalIndent now (replaceContents g req)) =
      payload (echoHandler unmarshal marshalIndent now req)"
    by (simp add: echoHandler_def classifyBody_files [OF m] classifyBody_files [OF m'] v
        buildFormData_contents replaceContents_frame)
  ultimately show ?thesis
    by (simp add: buildFormData_lookup [OF assms(3,4)])
qed

lemma strings_Contains_append: "strings_Contains (a @ substr @ b) substr"
proof (induction a)
  case Nil
  show ?case
  proof (cases "substr @ b")
    case Nil
    then show ?thesis by simp
  next
    case (Cons c cs)
    have "prefix substr (substr @ b)" by simp
    then show ?thesis using Cons by simp
  qed
next
  case (Cons x a)
  then show ?case by simp
qed

lemma multipart_text_holds_file: "strings_Contains multipart_text (fh_content report_txt)"
  using strings_Contains_append [of
      "''--x'' @ [CHR 0x0D, CHR 0x0A] @
       ''Content-Disposition: form-data; name='' @ [CHR 0x22] @ ''file'' @ [CHR 0x22] @
       ''; filename='' @ [CHR 0x22] @ fh_Filename report_txt @ [CHR 0x22] @ [CHR 0x0D, CHR 0x0A] @
       ''Content-Type: text/plain'' @ [CHR 0x0D, CHR 0x0A] @ [CHR 0x0D, CHR 0x0A]"
      "fh_content report_txt"
      "[CHR 0x0D, CHR 0x0A] @ ''--x--'' @ [CHR 0x0D, CHR 0x0A]"]
  by (simp add: multipart_text_def)

lemma upload_request_facts:
  "reqMultipartForm upload_request = None"
  "\<not> strings_Contains (GetHeader upload_request ''Content-Type'') ''application/json''"
  "fst (readBody upload_request) = multipart_text"
  by (simp_all add: upload_request_def GetHeader_def readBody_def io_ReadAll_def Let_def)

text \<open>
  C3. The upload of the 42 bytes of \<^verbatim>\<open>report.txt\<close> under the field \<^verbatim>\<open>file\<close> reaches the
  handler with a \<^verbatim>\<open>MultipartForm\<close> that is \<^verbatim>\<open>nil\<close>, so the test of line 319 fails and the
  request is handled as a regular body: the returned body and the console text are
  the raw multipart text, which holds the bytes of the file, and the body is no
  mapping, so it has no entry \<^verbatim>\<open>file\<close> with the file name and the size.
\<close>

theorem upload_echoed_with_file_bytes:
  "reqMultipartForm upload_request = None \<and>
   Body (payload (echoHandler unmarshal marshalIndent now upload_request)) =
     BodyText multipart_text \<and>
   bodyStr (echoHandler unmarshal marshalIndent now upload_request) = multipart_text \<and>
   Body (payload (echoInline unmarshal marshalIndent upload_request)) =
     BodyText multipart_text \<and>
   strings_Contains multipart_text (fh_content report_txt) \<and>
   bodyField (Body (payload (echoHandler unmarshal marshalIndent now upload_request))) ''file'' =
     None"
proof -
  have m: "multipartFiles upload_request = None"
    by (simp add: multipartFiles_def upload_request_facts)
  have c: "classifyBody unmarshal marshalIndent upload_request =
      (BodyText multipart_text, multipart_text, snd (readBody upload_request))"
    by (simp add: classifyBody_regular [OF m] upload_request_facts)
  show ?thesis
    by (simp add: echoHandler_fields echoInline_fields c upload_request_facts
        multipart_text_holds_file bodyField_def)
qed

text \<open>
  C8. The headers are always a map, never \<^verbatim>\<open>nil\<close>. The body is \<^verbatim>\<open>nil\<close> in one
  case only: the request is classified as JSON and \<^verbatim>\<open>json.Unmarshal\<close> decodes its
  bytes to \<^verbatim>\<open>nil\<close>, as it does for the document \<^verbatim>\<open>null\<close>. Without a multipart form
  with files, a request with no body or with a body of no bytes gets the empty
  text as its body.
\<close>

theorem headers_and_body_present:
  "Headers (payload (echoHandler unmarshal marshalIndent now req)) = Some (collectHeaders req) \<and>
   Headers (payload (echoInline unmarshal marshalIndent req)) = Some (collectHeaders req) \<and>
   (Body (payload (echoHandler unmarshal marshalIndent now req)) = BodyJSON JNull \<longleftrightarrow>
      multipartFiles req = None \<and>
      strings_Contains (GetHeader req ''Content-Type'') ''application/json'' \<and>
      fst (readBody req) \<noteq> [] \<and> unmarshal (fst (readBody req)) = Some JNull) \<and>
   (multipartFiles req = None \<and> map_option pending (reqBody req) \<in> {None, Some []} \<longrightarrow>
      Body (payload (echoHandler unmarshal marshalIndent now req)) = BodyText [] \<and>
      Body (payload (echoInline unmarshal marshalIndent req)) = BodyText [])"
proof -
  have nil: "Body (payload (echoHandler unmarshal marshalIndent now req)) = BodyJSON JNull \<longleftrightarrow>
      multipartFiles req = None \<and>
      strings_Contains (GetHeader req ''Content-Type'') ''application/json'' \<and>
      fst (readBody req) \<noteq> [] \<and> unmarshal (fst (readBody req)) = Some JNull"
  proof (cases "multipartFiles req")
    case None
    then show ?thesis
      by (auto simp: echoHandler_fields classifyBody_regular Let_def split: option.splits)
  next
    case (Some x)
    then show ?thesis
      by (cases x) (simp add: echoHandler_fields classifyBody_files)
  qed
  have "fst (readBody req) = []" if "map_option pending (reqBody req) \<in> {None, Some []}"
    using that by (auto simp: readBody_def io_ReadAll_def Let_def split: option.splits)
  then have empty: "Body (payload (echoHandler unmarshal marshalIndent now req)) = BodyText [] \<and>
      Body (payload (echoInline unmarshal marshalIndent req)) = BodyText []"
    if "multipartFiles req = None" "map_option pending (reqBody req) \<in> {None, Some []}"
    using that by (simp add: echoHandler_fields echoInline_fields classifyBody_regular)
  show ?thesis
    using nil empty by (simp add: echoHandler_fields echoInline_fields)
qed

theorem headers_and_body_present_witness:
  "multipartFiles empty_request = None \<and>
   map_option pending (reqBody empty_request) = Some [] \<and>
   Headers (payload (echoHandler sample_Unmarshal sample_MarshalIndent ''2026-11-02 10:00:00''
     empty_request)) = Some Map.empty \<and>
   Body (payload (echoHandler sample_Unmarshal sample_MarshalIndent ''2026-11-02 10:00:00''
     empty_request)) = BodyText [] \<and>
   Body (payload (echoHandler sample_Unmarshal sample_MarshalIndent ''2026-11-02 10:00:00''
     empty_request)) \<noteq> BodyJSON JNull"
proof -
  have e: "multipartFiles empty_request = None"
    "map_option pending (reqBody empty_request) = Some []"
    "collectHeaders empty_request = Map.empty"
    by (simp_all add: empty_request_def multipartFiles_def collectHeaders_def)
  show ?thesis
    using headers_and_body_present [of sample_Unmarshal sample_MarshalIndent
        "''2026-11-02 10:00:00''" empty_request] e
    by simp
qed

text \<open>
  For the body \<^verbatim>\<open>null\<close> sent as \<^verbatim>\<open>application/json\<close> the returned body is \<^verbatim>\<open>nil\<close>.
\<close>

theorem json_null_body_is_nil:
  "reqBody null_request = Some (Reader ''null'' False) \<and>
   sample_Unmarshal ''null'' = Some JNull \<and>
   Body (payload (echoHandler sample_Unmarshal sample_MarshalIndent ''2026-11-02 10:00:00''
     null_request)) = BodyJSON JNull"
  by (simp add: null_request_def sample_request_def sample_Unmarshal_def echoHandler_fields
      classifyBody_def multipartFiles_def readBody_def io_ReadAll_def GetHeader_def Let_def)

lemma same_inputs_headers:
  assumes "same_inputs a b"
  shows "collectHeaders a = collectHeaders b" and "GetHeader a key = GetHeader b key"
proof -
  from assms have g: "gomap (reqHeader a)" "gomap (reqHeader b)"
    and m: "map_of (reqHeader a) = map_of (reqHeader b)"
    by (simp_all add: same_inputs_def same_gomap_def same_gomap_map_of)
  show "collectHeaders a = collectHeaders b"
    by (simp add: collectHeaders_lookup g m)
  show "GetHeader a key = GetHeader b key"
    by (simp add: GetHeader_def m)
qed

lemma same_inputs_classify:
  assumes "same_inputs a b"
  shows "fst (classifyBody unmarshal marshalIndent a) = fst (classifyBody unmarshal marshalIndent b)"
proof -
  from assms have body: "fst (readBody a) = fst (readBody b)"
    by (simp add: same_inputs_def)
  from assms have f: "same_form (reqMultipartForm a) (reqMultipartForm b)"
    by (simp add: same_inputs_def)
  show ?thesis
  proof (cases "multipartFiles a")
    case None
    with f have "multipartFiles b = None"
      by (auto simp: multipartFiles_def same_form_def split: option.splits)
    with None body same_inputs_headers(2) [OF assms, of "''Content-Type''"] show ?thesis
      by (simp add: classifyBody_regular Let_def split: option.splits)
  next
    case (Some x)
    obtain form files where x: "x = (form, files)"
      by (cases x)
    with Some f obtain form' files' where b: "multipartFiles b = Some (form', files')"
      and v: "same_gomap (form_Value form) (form_Value form')"
      and u: "same_gomap files files'"
      by (auto simp: multipartFiles_def same_form_def split: option.splits)
    from v u have g: "gomap (form_Value form)" "gomap files" "gomap (form_Value form')"
      "gomap files'"
      by (simp_all add: same_gomap_def)
    have "buildFormData (form_Value form) files = buildFormData (form_Value form') files'"
      by (simp add: buildFormData_lookup g same_gomap_map_of [OF v] same_gomap_map_of [OF u]
          cong: option.case_cong)
    with Some x b show ?thesis
      by (simp add: classifyBody_files)
  qed
qed

text \<open>
  C10. Two runs of \<^verbatim>\<open>echoHandler\<close> on the same inputs return the same \<^verbatim>\<open>method\<close>,
  \<^verbatim>\<open>headers\<close> and \<^verbatim>\<open>body\<close>, whatever the clock shows in each run and in whatever
  order each run visits the entries of the maps. They return the same \<^verbatim>\<open>full_url\<close>
  where the host is not empty or the peer addresses agree.
\<close>

theorem normalisation_deterministic:
  assumes "same_inputs a b"
  shows "Method (payload (echoHandler unmarshal marshalIndent now1 a)) =
           Method (payload (echoHandler unmarshal marshalIndent now2 b)) \<and>
         Headers (payload (echoHandler unmarshal marshalIndent now1 a)) =
           Headers (payload (echoHandler unmarshal marshalIndent now2 b)) \<and>
         Body (payload (echoHandler unmarshal marshalIndent now1 a)) =
           Body (payload (echoHandler unmarshal marshalIndent now2 b)) \<and>
         (reqHost a \<noteq> [] \<or> reqRemoteAddr a = reqRemoteAddr b \<longrightarrow>
            FullURL (payload (echoHandler unmarshal marshalIndent now1 a)) =
              FullURL (payload (echoHandler unmarshal marshalIndent now2 b)))"
proof -
  from assms have "reqMethod a = reqMethod b"
    by (simp add: same_inputs_def)
  moreover from assms have "getFullURL a = getFullURL b"
    if "reqHost a \<noteq> [] \<or> reqRemoteAddr a = reqRemoteAddr b"
    using that by (auto simp: same_inputs_def getFullURL_def)
  ultimately show ?thesis
    using same_inputs_headers(1) [OF assms] same_inputs_classify [OF assms]
    by (simp add: echoHandler_fields getFullURL_frame classifyBody_frame)
qed

lemma sample_reordered: "same_inputs sample_request reordered_request"
  by (auto simp: same_inputs_def same_gomap_def gomap_def same_form_def reordered_request_def
      sample_request_def readBody_def Let_def)

theorem normalisation_deterministic_witness:
  "same_inputs sample_request reordered_request \<and>
   reqHeader sample_request \<noteq> reqHeader reordered_request \<and>
   reqHost sample_request \<noteq> [] \<and>
   FullURL (payload (echoHandler sample_Unmarshal sample_MarshalIndent ''2026-11-02 10:00:00''
     sample_request)) =
   FullURL (payload (echoHandler sample_Unmarshal sample_MarshalIndent ''2026-11-02 10:00:07''
     reordered_request)) \<and>
   Headers (payload (echoHandler sample_Unmarshal sample_MarshalIndent ''2026-11-02 10:00:00''
     sample_request)) =
   Headers (payload (echoHandler sample_Unmarshal sample_MarshalIndent ''2026-11-02 10:00:07''
     reordered_request)) \<and>
   Body (payload (echoHandler sample_Unmarshal sample_MarshalIndent ''2026-11-02 10:00:00''
     sample_request)) =
   Body (payload (echoHandler sample_Unmarshal sample_MarshalIndent ''2026-11-02 10:00:07''
     reordered_request)) \<and>
   ReceivedTime (payload (echoHandler sample_Unmarshal sample_MarshalIndent
     ''2026-11-02 10:00:00'' sample_request)) \<noteq>
   ReceivedTime (payload (echoHandler sample_Unmarshal sample_MarshalIndent
     ''2026-11-02 10:00:07'' reordered_request))"
proof -
  have d: "reqHeader sample_request \<noteq> reqHeader reordered_request"
    "reqHost sample_request \<noteq> []"
    by (simp_all add: reordered_request_def sample_request_def)
  show ?thesis
    using normalisation_deterministic [OF sample_reordered, of sample_Unmarshal
        sample_MarshalIndent "''2026-11-02 10:00:00''" "''2026-11-02 10:00:07''"]
      sample_reordered d
    by (simp add: echoHandler_fields)
qed

text \<open>
  Two requests without a host that differ in the peer address only have the same
  inputs, and their \<^verbatim>\<open>full_url\<close> differs.
\<close>

theorem full_url_follows_peer_address:
  "same_inputs empty_request second_connection_request \<and>
   FullURL (payload (echoHandler sample_Unmarshal sample_MarshalIndent ''2026-11-02 10:00:00''
     empty_request)) = ''https://10.0.0.7:51234/webhook'' \<and>
   FullURL (payload (echoHandler sample_Unmarshal sample_MarshalIndent ''2026-11-02 10:00:00''
     second_connection_request)) = ''https://10.0.0.7:51236/webhook''"
  by (simp add: same_inputs_def same_gomap_def gomap_def same_form_def
      second_connection_request_def empty_request_def readBody_def Let_def echoHandler_fields
      classifyBody_frame getFullURL_def)

end
